theory Spec2Isabelle
  imports Main "HOL-Library.Word"
begin

unbundle bit_operations_syntax

section \<open>The correlation id generator: \<open>utils.generateUUID\<close>\<close>

text \<open>
  The source (api.js) is
  \<^verbatim>\<open>
  generateUUID() {
    return "xxxxxxxx-xxxx-4xxx-yxxx-xxxxxxxxxxxx".replace(/[xy]/g, function (c) {
      const r = (Math.random() * 16) | 0;
      const v = c == "x" ? r : (r & 0x3) | 0x8;
      return v.toString(16);
    });
  }
  \<close>
  The callback runs once for every \<open>x\<close> or \<open>y\<close> of the template, from left to right,
  and each run takes one fresh draw \<open>r = (Math.random() * 16) | 0\<close>, an integer from 0 to
  15. The draws are the only input of the function; they are modelled as a sequence of
  4-bit words, \<open>rnd k\<close> being the draw of the \<open>k\<close>-th run of the callback.
\<close>

definition uuidTemplate :: string where
  "uuidTemplate = ''xxxxxxxx-xxxx-4xxx-yxxx-xxxxxxxxxxxx''"

text \<open>\<open>v.toString(16)\<close> for \<open>v\<close> from 0 to 15: one lower-case hexadecimal digit.\<close>

definition toString16 :: "4 word \<Rightarrow> char" where
  "toString16 v = ''0123456789abcdef'' ! unat v"

text \<open>The body of the callback: \<open>c == "x" ? r : (r & 0x3) | 0x8\<close>, then \<open>toString(16)\<close>.\<close>

definition replacer :: "char \<Rightarrow> 4 word \<Rightarrow> char" where
  "replacer c r = toString16 (if c = CHR ''x'' then r else (r AND 3) OR 8)"

text \<open>\<open>String.prototype.replace\<close> with the global pattern \<open>/[xy]/g\<close>.\<close>

fun replace_xy :: "(nat \<Rightarrow> 4 word) \<Rightarrow> nat \<Rightarrow> string \<Rightarrow> string" where
  "replace_xy rnd k [] = []"
| "replace_xy rnd k (c # cs) =
     (if c = CHR ''x'' \<or> c = CHR ''y''
      then replacer c (rnd k) # replace_xy rnd (Suc k) cs
      else c # replace_xy rnd k cs)"

definition generateUUID :: "(nat \<Rightarrow> 4 word) \<Rightarrow> string" where
  "generateUUID rnd = replace_xy rnd 0 uuidTemplate"

definition isHexDigit :: "char \<Rightarrow> bool" where
  "isHexDigit c = (c \<in> set ''0123456789abcdef'')"

text \<open>Two runs of draws that differ in the draw taken for the \<open>y\<close> (0 and 4), and a third
  that differs from the first at the first \<open>x\<close>.\<close>

definition drawsA :: "nat \<Rightarrow> 4 word" where
  "drawsA k = 0"

definition drawsB :: "nat \<Rightarrow> 4 word" where
  "drawsB k = (if k = 15 then 4 else 0)"

definition drawsC :: "nat \<Rightarrow> 4 word" where
  "drawsC k = (if k = 0 then 7 else 0)"


section \<open>JavaScript values used by the pages\<close>

text \<open>
  A property that may be missing (\<open>undefined\<close> or \<open>null\<close>) is a \<open>string option\<close>. A value is
  truthy when it is present and not the empty string; \<open>a || b\<close> is \<open>a\<close> when \<open>a\<close> is truthy and
  \<open>b\<close> otherwise.
\<close>

definition truthy :: "string option \<Rightarrow> bool" where
  "truthy v = (case v of None \<Rightarrow> False | Some s \<Rightarrow> s \<noteq> [])"

definition js_or :: "string option \<Rightarrow> string option \<Rightarrow> string option" where
  "js_or a b = (if truthy a then a else b)"

definition js_or_default :: "string option \<Rightarrow> string \<Rightarrow> string" where
  "js_or_default a d = (case a of None \<Rightarrow> d | Some s \<Rightarrow> if s \<noteq> [] then s else d)"

text \<open>\<open>s || d\<close> and \<open>s || null\<close> for a string \<open>s\<close> read from a form field.\<close>

definition str_or :: "string \<Rightarrow> string \<Rightarrow> string" where
  "str_or s d = (if s \<noteq> [] then s else d)"

definition str_or_null :: "string \<Rightarrow> string option" where
  "str_or_null s = (if s \<noteq> [] then Some s else None)"

text \<open>A template literal prints a missing value as the word \<open>undefined\<close>.\<close>

definition js_template :: "string option \<Rightarrow> string" where
  "js_template v = (case v of None \<Rightarrow> ''undefined'' | Some s \<Rightarrow> s)"

text \<open>\<open>String.prototype.trim\<close>, over the ASCII white space (space, tab, line feed, vertical
  tab, form feed, carriage return).\<close>

definition isSpace :: "char \<Rightarrow> bool" where
  "isSpace c = (c \<in> {CHR '' '', CHR 0x09, CHR 0x0A, CHR 0x0B, CHR 0x0C, CHR 0x0D})"

definition trim :: "string \<Rightarrow> string" where
  "trim s = rev (dropWhile isSpace (rev (dropWhile isSpace s)))"

text \<open>An exception: \<open>new Error(message)\<close>, or the \<open>TypeError\<close> of calling a value that is not
  a function.\<close>

datatype js_error = Error string | TypeError string

fun message :: "js_error \<Rightarrow> string" where
  "message (Error m) = m"
| "message (TypeError m) = m"

section \<open>Aadhaar on display: \<open>loadPatients\<close> and \<open>viewPatient\<close>\<close>

record patient =
  p_patientId :: string
  p_name :: string
  p_mobile :: string
  p_abhaId :: "string option"
  p_aadhaar :: "string option"

text \<open>\<open>s.slice(0, 4)\<close> and \<open>s.slice(-4)\<close>. A negative start counts from the end and stops at
  the beginning of the string, which is what the subtraction on \<open>nat\<close> does.\<close>

definition slice_0_4 :: "string \<Rightarrow> string" where
  "slice_0_4 s = take 4 s"

definition slice_neg4 :: "string \<Rightarrow> string" where
  "slice_neg4 s = drop (length s - 4) s"

text \<open>The text of the Aadhaar cell of the patient list,
  \<^verbatim>\<open>patient.aadhaar ? patient.aadhaar.slice(0, 4) + "****" + patient.aadhaar.slice(-4) : ...\<close>
  whose other branch is a muted dash.\<close>

definition loadPatients_aadhaarCell :: "patient \<Rightarrow> string" where
  "loadPatients_aadhaarCell p =
     (case p_aadhaar p of
        None \<Rightarrow> ''-''
      | Some a \<Rightarrow> if a \<noteq> [] then slice_0_4 a @ ''****'' @ slice_neg4 a else ''-'')"

text \<open>The same expression in the patient-details modal, whose other branch reads
  \<open>Not provided\<close>.\<close>

definition viewPatient_aadhaarCell :: "patient \<Rightarrow> string" where
  "viewPatient_aadhaarCell p =
     (case p_aadhaar p of
        None \<Rightarrow> ''Not provided''
      | Some a \<Rightarrow> if a \<noteq> [] then slice_0_4 a @ ''****'' @ slice_neg4 a else ''Not provided'')"

definition patientShort :: patient where
  "patientShort = \<lparr>p_patientId = ''P1'', p_name = ''A'', p_mobile = ''9999999999'',
     p_abhaId = None, p_aadhaar = Some ''12345''\<rparr>"

definition patientFull :: patient where
  "patientFull = \<lparr>p_patientId = ''P1'', p_name = ''A'', p_mobile = ''9999999999'',
     p_abhaId = None, p_aadhaar = Some ''123456789012''\<rparr>"

section \<open>Visits: the visit picker and the visit-details modal\<close>

text \<open>A visit as the pages read it. The API answers in camel case; the pages also try the
  snake-case spellings, so both are fields.\<close>

record visit =
  v_visitId :: "string option"
  v_visit_id :: "string option"
  v_id :: "string option"
  v_patientId :: "string option"
  v_patient_id :: "string option"
  v_status :: "string option"
  v_department :: "string option"
  v_visitType :: "string option"


text \<open>\<open>option.value = visit.visitId || visit.id\<close>.\<close>

definition visitOptionValue :: "visit \<Rightarrow> string option" where
  "visitOptionValue v = js_or (v_visitId v) (v_id v)"

text \<open>The lookup of \<open>handleVisitSelection\<close>:
  \<open>allVisits.find((v) => (v.visitId || v.id) === selectedVisitId)\<close>.\<close>

definition findSelectedVisit :: "visit list \<Rightarrow> string \<Rightarrow> visit option" where
  "findSelectedVisit allVisits selectedVisitId =
     find (\<lambda>v. visitOptionValue v = Some selectedVisitId) allVisits"






definition visitScheduled :: visit where
  "visitScheduled = \<lparr>v_visitId = Some ''V2'', v_visit_id = Some ''V2'', v_id = None,
     v_patientId = Some ''P1'', v_patient_id = Some ''P1'', v_status = Some ''Scheduled'',
     v_department = Some ''Cardiology'', v_visitType = Some ''OPD''\<rparr>"

section \<open>The pages' calls to the hospital node\<close>

text \<open>
  The body of \<open>POST /api/care-context/create-and-link\<close> as \<open>createAndLinkCareContext\<close>
  builds it: \<open>{ patientId, contextName, description }\<close>. \<open>JSON.stringify\<close> leaves a missing
  \<open>patientId\<close> out.
\<close>

record linkRequest =
  rq_patientId :: "string option"
  rq_contextName :: string
  rq_description :: string

text \<open>The body of \<open>handleCreateCareContext\<close> (care-contexts page):
  \<open>{ patientId, contextType, contextName, description }\<close>.\<close>

record contextFormRequest =
  cf_patientId :: string
  cf_contextType :: string
  cf_contextName :: string
  cf_description :: "string option"

text \<open>The body of \<open>POST /api/health-records/{patientId}\<close> as \<open>handleCreateHealthRecord\<close>
  builds it.\<close>

record recordData =
  rd_patientId :: string
  rd_recordType :: string
  rd_recordDate :: string
  rd_title :: string
  rd_data_title :: string
  rd_data_recordType :: string
  rd_data_doctorName :: string
  rd_data_department :: string
  rd_data_visitId :: string
  rd_data_contentText :: "string option"
  rd_data_fileUrl :: "string option"
  rd_dataText :: "string option"

datatype apiCall =
    HealthRecordsCreate string recordData
  | CareContextsCreateAndLink linkRequest
  | CareContextsCreateFromForm contextFormRequest
  | HealthRecordsNotifyGateway string "string option"
  | WebhooksClearQueue
  | WebhooksGetQueue

text \<open>The toasts of the pages, by the call that shows them (\<open>utils.showInfo\<close>,
  \<open>utils.showSuccess\<close>, \<open>utils.showError\<close>, \<open>utils.showToast\<close>) and the message.\<close>

datatype toast =
    InfoContextCreatedLocally string
  | InfoContextCreatedAndLinked
  | ErrorContextMissingId
  | InfoContextCreationFailed string
  | ErrorVisitNotFound
  | ErrorSelectVisitFirst
  | ErrorFillRequiredFields
  | SuccessRecordRegisteredWithGateway
  | SuccessRecordNotificationPending
  | ErrorRecordCreateFailed string
  | SuccessQueueCleared
  | ErrorQueueClearFailed string
  | SuccessContextLinked
  | WarningContextPending
  | WarningContextLinkingFailed
  | ErrorContextCreateFailed string

datatype event = Call apiCall | Toast toast | Confirm

text \<open>What \<open>createAndLinkCareContext\<close> reads of the answer: \<open>response.localContext.contextId\<close>
  (missing when \<open>localContext\<close> is), \<open>response.gatewayResponse.status\<close> and
  \<open>response.gatewayResponse.message\<close> (missing when \<open>gatewayResponse\<close> is).\<close>

record linkResponse =
  lr_contextId :: "string option"
  lr_gatewayStatus :: "string option"
  lr_gatewayMessage :: "string option"

text \<open>The page-level variables of the health-records page.\<close>

record page =
  allVisits :: "visit list"
  selectedVisit :: "visit option"
  selectedCareContext :: "string option"

text \<open>
  \<open>createAndLinkCareContext(patientId, department, visitType)\<close>. \<open>fullYear\<close> is the text of
  \<open>new Date().getFullYear()\<close>; \<open>answer\<close> is what \<open>await api.careContexts.createAndLink(...)\<close>
  gives, a thrown error or the parsed body. The whole body is inside \<open>try\<close>/\<open>catch\<close>, so the
  function returns in every case.
\<close>

definition createAndLinkCareContext_request ::
    "string option \<Rightarrow> string \<Rightarrow> string \<Rightarrow> string \<Rightarrow> linkRequest" where
  "createAndLinkCareContext_request patientId department visitType fullYear =
     \<lparr>rq_patientId = patientId,
      rq_contextName = department @ '' Care - '' @ fullYear,
      rq_description = visitType @ '' visit care context''\<rparr>"

definition createAndLinkCareContext ::
    "string option \<Rightarrow> string \<Rightarrow> string \<Rightarrow> string \<Rightarrow> js_error + linkResponse \<Rightarrow> page
      \<Rightarrow> event list \<times> page" where
  "createAndLinkCareContext patientId department visitType fullYear answer pg =
     (let call = Call (CareContextsCreateAndLink
            (createAndLinkCareContext_request patientId department visitType fullYear)) in
      case answer of
        Inl error \<Rightarrow> ([call, Toast (InfoContextCreationFailed (message error))], pg)
      | Inr response \<Rightarrow>
          if truthy (lr_contextId response)
          then ([call,
                 Toast (if lr_gatewayStatus response = Some ''pending''
                        then InfoContextCreatedLocally
                               (js_or_default (lr_gatewayMessage response) ''unavailable'')
                        else InfoContextCreatedAndLinked)],
                pg\<lparr>selectedCareContext := lr_contextId response\<rparr>)
          else ([call, Toast ErrorContextMissingId], pg))"

text \<open>\<open>handleVisitSelection\<close>, for the value of the visit picker. An empty value clears the
  selection; a value that no kept visit has leaves \<open>selectedVisit\<close> undefined.\<close>

definition handleVisitSelection ::
    "string \<Rightarrow> string \<Rightarrow> js_error + linkResponse \<Rightarrow> page \<Rightarrow> event list \<times> page" where
  "handleVisitSelection selectedVisitId fullYear answer pg =
     (if selectedVisitId = []
      then ([], pg\<lparr>selectedVisit := None, selectedCareContext := None\<rparr>)
      else case findSelectedVisit (allVisits pg) selectedVisitId of
             None \<Rightarrow> ([Toast ErrorVisitNotFound], pg\<lparr>selectedVisit := None\<rparr>)
           | Some v \<Rightarrow>
               createAndLinkCareContext (js_or (v_patientId v) (v_patient_id v))
                 (js_or_default (v_department v) ''General'')
                 (js_or_default (v_visitType v) ''Visit'')
                 fullYear answer (pg\<lparr>selectedVisit := Some v\<rparr>))"

text \<open>The \<open>api.healthRecords\<close> object of api.js has three methods. Calling a property that
  the object does not have throws a \<open>TypeError\<close> before any request is made.\<close>

definition api_healthRecords :: "string list" where
  "api_healthRecords = [''create'', ''getByPatient'', ''list'']"

definition callMethod :: "string list \<Rightarrow> string \<Rightarrow> (js_error + 'a) \<Rightarrow> js_error + 'a" where
  "callMethod obj name result =
     (if name \<in> set obj then result else Inl (TypeError (name @ '' is not a function'')))"

text \<open>
  \<open>api.healthRecords.create(data)\<close> posts \<open>data\<close> to
  \<^verbatim>\<open>`/api/health-records/${data.patient_id}`\<close>. The object that \<open>handleCreateHealthRecord\<close>
  passes spells the property \<open>patientId\<close> and has no \<open>patient_id\<close>.
\<close>

definition recordData_patient_id :: "recordData \<Rightarrow> string option" where
  "recordData_patient_id data = None"

definition api_healthRecords_create_endpoint :: "recordData \<Rightarrow> string" where
  "api_healthRecords_create_endpoint data =
     ''/api/health-records/'' @ js_template (recordData_patient_id data)"

text \<open>The fields of the record form that \<open>handleCreateHealthRecord\<close> reads.\<close>

record recordForm =
  f_visitSelect :: string
  f_patientId :: string
  f_recordType :: string
  f_recordDate :: string
  f_title :: string
  f_doctorName :: string
  f_department :: string
  f_visitId :: string
  f_content :: string
  f_fileUrl :: string

definition handleCreateHealthRecord_recordData :: "recordForm \<Rightarrow> recordData" where
  "handleCreateHealthRecord_recordData form =
     \<lparr>rd_patientId = trim (f_patientId form),
      rd_recordType = f_recordType form,
      rd_recordDate = f_recordDate form,
      rd_title = trim (f_title form),
      rd_data_title = trim (f_title form),
      rd_data_recordType = f_recordType form,
      rd_data_doctorName = str_or (trim (f_doctorName form)) ''Not specified'',
      rd_data_department = str_or (trim (f_department form)) ''General'',
      rd_data_visitId = str_or (f_visitId form) (f_visitSelect form),
      rd_data_contentText = str_or_null (trim (f_content form)),
      rd_data_fileUrl = str_or_null (trim (f_fileUrl form)),
      rd_dataText = str_or_null (trim (f_content form))\<rparr>"

text \<open>
  \<open>handleCreateHealthRecord\<close>. \<open>created\<close> is what \<open>await api.healthRecords.create(recordData)\<close>
  gives (a thrown error, or the \<open>id\<close> of the answer), \<open>linkAnswer\<close> what the care-context
  call gives if it is made, and \<open>notified\<close> what a \<open>notifyGateway\<close> method would give if the
  object had one. The reload of the table that ends the function reads only, inside its own
  \<open>try\<close>/\<open>catch\<close>, and is left out.
\<close>

definition handleCreateHealthRecord ::
    "recordForm \<Rightarrow> string \<Rightarrow> js_error + string option \<Rightarrow> js_error + linkResponse
      \<Rightarrow> js_error + unit \<Rightarrow> page \<Rightarrow> event list \<times> page" where
  "handleCreateHealthRecord form fullYear created linkAnswer notified pg =
     (let visitId = f_visitSelect form;
          patientId = trim (f_patientId form);
          recordType = f_recordType form;
          recordDate = f_recordDate form;
          title = trim (f_title form) in
      if visitId = [] then ([Toast ErrorSelectVisitFirst], pg)
      else if patientId = [] \<or> recordType = [] \<or> recordDate = [] \<or> title = []
      then ([Toast ErrorFillRequiredFields], pg)
      else
        let recordData = handleCreateHealthRecord_recordData form;
            create = Call (HealthRecordsCreate (api_healthRecords_create_endpoint recordData)
                       recordData) in
        case created of
          Inl error \<Rightarrow> ([create, Toast (ErrorRecordCreateFailed (message error))], pg)
        | Inr createResponse_id \<Rightarrow>
            let (linkEvents, pg') =
                  (if \<not> truthy (selectedCareContext pg) \<and> selectedVisit pg \<noteq> None
                   then createAndLinkCareContext (Some patientId)
                          (str_or (f_department form) ''General'') recordType fullYear
                          linkAnswer pg
                   else ([], pg));
                notifyEvents =
                  (case callMethod api_healthRecords ''notifyGateway'' notified of
                     Inl notifyError \<Rightarrow> [Toast SuccessRecordNotificationPending]
                   | Inr notifyResponse \<Rightarrow>
                       [Call (HealthRecordsNotifyGateway patientId createResponse_id),
                        Toast SuccessRecordRegisteredWithGateway])
            in (create # linkEvents @ notifyEvents,
                pg'\<lparr>selectedVisit := None, selectedCareContext := None\<rparr>))"


section \<open>Clearing the webhook queue\<close>

text \<open>A webhook event as the queue holds it.\<close>

record webhookEvent =
  we_id :: string
  we_type :: string
  we_receivedAt :: string
  we_processed :: bool

text \<open>Modelled from the spec: the handler of \<open>DELETE /webhook/queue\<close> of the hospital node,
  which is not among the sources. Section 4.2: clear queue "discards all entries
  unconditionally".\<close>

definition webhookQueue_DELETE :: "webhookEvent list \<Rightarrow> webhookEvent list" where
  "webhookQueue_DELETE queue = []"

text \<open>\<open>api.webhooks.clearQueue\<close>, that is \<open>api.delete("/webhook/queue")\<close>: when the node
  answers, the handler has run; when the request fails (\<open>failure\<close> holds the error), the
  queue is as it was and the error is thrown.\<close>

definition api_webhooks_clearQueue ::
    "js_error option \<Rightarrow> webhookEvent list \<Rightarrow> (js_error + unit) \<times> webhookEvent list" where
  "api_webhooks_clearQueue failure queue =
     (case failure of
        Some error \<Rightarrow> (Inl error, queue)
      | None \<Rightarrow> (Inr (), webhookQueue_DELETE queue))"

text \<open>
  \<open>clearWebhookQueue\<close> (status page). \<open>confirmed\<close> is the operator's answer to
  \<open>confirm("Are you sure you want to clear all webhooks from the queue?")\<close>. After a
  successful clear the two panels are loaded again, each with a read of the queue.
\<close>

definition clearWebhookQueue ::
    "bool \<Rightarrow> js_error option \<Rightarrow> webhookEvent list \<Rightarrow> event list \<times> webhookEvent list" where
  "clearWebhookQueue confirmed failure queue =
     (if \<not> confirmed then ([Confirm], queue)
      else case api_webhooks_clearQueue failure queue of
             (Inl error, queue') \<Rightarrow>
               ([Confirm, Call WebhooksClearQueue, Toast (ErrorQueueClearFailed (message error))],
                queue')
           | (Inr ok, queue') \<Rightarrow>
               ([Confirm, Call WebhooksClearQueue, Toast SuccessQueueCleared,
                 Call WebhooksGetQueue, Call WebhooksGetQueue], queue'))"

definition calls :: "event list \<Rightarrow> apiCall list" where
  "calls events = concat (map (\<lambda>e. case e of Call c \<Rightarrow> [c] | _ \<Rightarrow> []) events)"

definition toasts :: "event list \<Rightarrow> toast list" where
  "toasts events = concat (map (\<lambda>e. case e of Toast t \<Rightarrow> [t] | _ \<Rightarrow> []) events)"

definition queueTwo :: "webhookEvent list" where
  "queueTwo =
     [\<lparr>we_id = ''e1'', we_type = ''linking'', we_receivedAt = ''t1'', we_processed = False\<rparr>,
      \<lparr>we_id = ''e2'', we_type = ''data-request'', we_receivedAt = ''t2'', we_processed = True\<rparr>]"

definition formFilled :: recordForm where
  "formFilled = \<lparr>f_visitSelect = ''V2'', f_patientId = ''P1'', f_recordType = ''PRESCRIPTION'',
     f_recordDate = ''2025-01-01'', f_title = ''Rx'', f_doctorName = [], f_department = ''Cardiology'',
     f_visitId = ''V2'', f_content = [], f_fileUrl = []\<rparr>"

definition pageSelected :: page where
  "pageSelected = \<lparr>allVisits = [visitScheduled], selectedVisit = Some visitScheduled,
     selectedCareContext = None\<rparr>"

text \<open>The two checks at the head of \<open>handleCreateHealthRecord\<close>, both passed.\<close>

definition formValid :: "recordForm \<Rightarrow> bool" where
  "formValid form =
     (f_visitSelect form \<noteq> [] \<and> trim (f_patientId form) \<noteq> [] \<and> f_recordType form \<noteq> []
      \<and> f_recordDate form \<noteq> [] \<and> trim (f_title form) \<noteq> [])"

fun isNotifyGatewayCall :: "apiCall \<Rightarrow> bool" where
  "isNotifyGatewayCall (HealthRecordsNotifyGateway patientId recordId) = True"
| "isNotifyGatewayCall other = False"

text \<open>The request that \<open>handleVisitSelection\<close> has \<open>createAndLinkCareContext\<close> send for the
  visit it found.\<close>

definition handleVisitSelection_request :: "visit \<Rightarrow> string \<Rightarrow> linkRequest" where
  "handleVisitSelection_request v fullYear =
     createAndLinkCareContext_request (js_or (v_patientId v) (v_patient_id v))
       (js_or_default (v_department v) ''General'')
       (js_or_default (v_visitType v) ''Visit'') fullYear"

section \<open>The record page as a whole\<close>











section \<open>The care-context linking engine\<close>

text \<open>
  Modelled from the spec: the linking engine and the handler of
  \<open>POST /api/care-context/create-and-link\<close> are code of the hospital node, which is not among
  the sources (the pages above are its callers). The definitions of this section follow
  sections 3, 4.1 and 6 of the specification.
\<close>

datatype linkingStatus = pending | linked | failed

record careContext =
  cc_contextId :: string
  cc_patientId :: string
  cc_visitId :: "string option"
  cc_contextName :: string
  cc_contextType :: "string option"
  cc_linkingStatus :: linkingStatus
  cc_linkingError :: "string option"

text \<open>Modelled from the spec: the outcome of the broker's bind-context operation. "Network
  timeout and broker-rejected are both reported as failed with a human-readable
  linkingError".\<close>

datatype bindFailure = NetworkTimeout | BrokerRejected string

datatype bindResult = BindOk | BindFailed bindFailure

fun linkingErrorText :: "bindFailure \<Rightarrow> string" where
  "linkingErrorText NetworkTimeout = ''network timeout''"
| "linkingErrorText (BrokerRejected reason) = ''broker rejected: '' @ reason"

datatype engineError = PatientNotFound

fun findIndex :: "('a \<Rightarrow> bool) \<Rightarrow> 'a list \<Rightarrow> nat option" where
  "findIndex P [] = None"
| "findIndex P (x # xs) = (if P x then Some 0 else map_option Suc (findIndex P xs))"

text \<open>Modelled from the spec: the "lookup by (patientId, visitId)" of section 4.1.\<close>

definition sameVisit :: "string \<Rightarrow> string option \<Rightarrow> careContext \<Rightarrow> bool" where
  "sameVisit patientId visitId c = (cc_patientId c = patientId \<and> cc_visitId c = visitId)"

definition lookupContext :: "careContext list \<Rightarrow> string \<Rightarrow> string option \<Rightarrow> nat option" where
  "lookupContext contexts patientId visitId = findIndex (sameVisit patientId visitId) contexts"

text \<open>Modelled from the spec: step (1), "create the local CareContext row synchronously with
  linkingStatus = pending", after the lookup; an existing row is reused. The result is the
  rows, the position of the row of this call and whether the row is new.\<close>

definition createLocal ::
    "careContext list \<Rightarrow> string \<Rightarrow> string option \<Rightarrow> string \<Rightarrow> string
      \<Rightarrow> careContext list \<times> nat \<times> bool" where
  "createLocal contexts patientId visitId contextName newId =
     (case lookupContext contexts patientId visitId of
        Some i \<Rightarrow> (contexts, i, False)
      | None \<Rightarrow>
          (contexts @ [\<lparr>cc_contextId = newId, cc_patientId = patientId, cc_visitId = visitId,
              cc_contextName = contextName, cc_contextType = None,
              cc_linkingStatus = pending, cc_linkingError = None\<rparr>],
           length contexts, True))"

text \<open>Modelled from the spec: steps (3) and (4), "on success response, update linkingStatus
  = linked; on any network or broker-side failure, set linkingStatus = failed and record
  linkingError".\<close>

definition applyBindResult :: "careContext list \<Rightarrow> nat \<Rightarrow> bindResult \<Rightarrow> careContext list" where
  "applyBindResult contexts i result =
     contexts[i := (case result of
        BindOk \<Rightarrow> (contexts ! i)\<lparr>cc_linkingStatus := linked, cc_linkingError := None\<rparr>
      | BindFailed failure \<Rightarrow>
          (contexts ! i)\<lparr>cc_linkingStatus := failed,
             cc_linkingError := Some (linkingErrorText failure)\<rparr>)]"

text \<open>
  Modelled from the spec: create-and-link. The patient must exist. The broker is called for
  a new row and for an existing failed row ("retryable by a fresh create-and-link call
  which must detect the existing failed context and re-attempt the bind rather than
  creating a duplicate"); an existing row that has not failed is reused as it is. The
  result is the rows, the local context of the answer and whether the broker was called.
\<close>

definition createAndLink ::
    "string list \<Rightarrow> careContext list \<Rightarrow> string \<Rightarrow> string option \<Rightarrow> string \<Rightarrow> string
      \<Rightarrow> bindResult \<Rightarrow> engineError + careContext list \<times> careContext \<times> bool" where
  "createAndLink patients contexts patientId visitId contextName newId result =
     (if patientId \<notin> set patients then Inl PatientNotFound
      else
        case createLocal contexts patientId visitId contextName newId of
          (contexts1, i, created) \<Rightarrow>
            let bind = (created \<or> cc_linkingStatus (contexts1 ! i) = failed);
                contexts2 = (if bind then applyBindResult contexts1 i result else contexts1)
            in Inr (contexts2, contexts2 ! i, bind))"

text \<open>A run of create-and-link calls, one after the other; a call for an unknown patient
  leaves the contexts as they are.\<close>

record linkCall =
  lc_patientId :: string
  lc_visitId :: "string option"
  lc_contextName :: string
  lc_newId :: string
  lc_result :: bindResult

fun runCalls :: "string list \<Rightarrow> careContext list \<Rightarrow> linkCall list \<Rightarrow> careContext list" where
  "runCalls patients contexts [] = contexts"
| "runCalls patients contexts (call # rest) =
     (case createAndLink patients contexts (lc_patientId call) (lc_visitId call)
             (lc_contextName call) (lc_newId call) (lc_result call) of
        Inl error \<Rightarrow> runCalls patients contexts rest
      | Inr (contexts', c, bind) \<Rightarrow> runCalls patients contexts' rest)"

definition countContexts :: "careContext list \<Rightarrow> string \<Rightarrow> string option \<Rightarrow> nat" where
  "countContexts contexts patientId visitId =
     length (filter (sameVisit patientId visitId) contexts)"

text \<open>The transitions of \<open>linkingStatus\<close> that the claim allows for one row in one step;
  \<open>target\<close> says that the step belongs to a create-and-link call for this row.\<close>

definition allowedTransition :: "linkingStatus \<Rightarrow> linkingStatus \<Rightarrow> bool \<Rightarrow> bool" where
  "allowedTransition before after target =
     (after = before
      \<or> (target \<and> before = pending \<and> (after = linked \<or> after = failed))
      \<or> (target \<and> before = failed \<and> after = linked))"

text \<open>Modelled from the spec: attaching a health record (section 3: a record names its
  patient and its care context, and is "created after a CareContext exists"). The linking
  status of the context is not read.\<close>

record healthRecord =
  hr_recordId :: string
  hr_patientId :: string
  hr_visitId :: "string option"
  hr_contextId :: string
  hr_recordType :: string
  hr_recordDate :: string
  hr_data :: string

datatype attachError = ContextNotFound

definition attachHealthRecord ::
    "careContext list \<Rightarrow> healthRecord list \<Rightarrow> healthRecord \<Rightarrow> attachError + healthRecord list" where
  "attachHealthRecord contexts records r =
     (if list_ex (\<lambda>c. cc_contextId c = hr_contextId r \<and> cc_patientId c = hr_patientId r) contexts
      then Inr (records @ [r])
      else Inl ContextNotFound)"

definition contextLinkedP1 :: careContext where
  "contextLinkedP1 = \<lparr>cc_contextId = ''C-1'', cc_patientId = ''P1'', cc_visitId = None,
     cc_contextName = ''Cardiology Care - 2025'', cc_contextType = None,
     cc_linkingStatus = linked, cc_linkingError = None\<rparr>"

definition contextFailedP1 :: careContext where
  "contextFailedP1 = \<lparr>cc_contextId = ''C-1'', cc_patientId = ''P1'', cc_visitId = None,
     cc_contextName = ''Cardiology Care - 2025'', cc_contextType = None,
     cc_linkingStatus = failed, cc_linkingError = Some ''network timeout''\<rparr>"

definition contextLinkedV1 :: careContext where
  "contextLinkedV1 = \<lparr>cc_contextId = ''C-1'', cc_patientId = ''P1'', cc_visitId = Some ''V1'',
     cc_contextName = ''Cardiology Care - 2025'', cc_contextType = None,
     cc_linkingStatus = linked, cc_linkingError = None\<rparr>"

definition recordForC1 :: healthRecord where
  "recordForC1 = \<lparr>hr_recordId = ''R1'', hr_patientId = ''P1'', hr_visitId = None,
     hr_contextId = ''C-1'', hr_recordType = ''PRESCRIPTION'', hr_recordDate = ''2025-01-01'',
     hr_data = ''Rx''\<rparr>"

section \<open>The data request and response correlator\<close>

text \<open>
  Modelled from the spec: the correlator is code of the broker, which is not among the
  sources. The definitions of this section follow sections 3 and 4.3 of the specification.
\<close>

datatype requestStatus = initiated | awaiting_response | fulfilled | request_failed | timed_out

record dataRequest =
  dr_requestId :: string
  dr_hiuId :: string
  dr_consentId :: string
  dr_careContextIds :: "string list"
  dr_dataTypes :: "string list"
  dr_status :: requestStatus
  dr_records :: "string list"

record dataResponse =
  ds_requestId :: string
  ds_records :: "string list"

text \<open>What the delivering party is told, and what is written to the log.\<close>

datatype deliveryReply = Acknowledged | DeliveryError string

record delivery =
  dv_requests :: "dataRequest list"
  dv_reply :: deliveryReply
  dv_log :: "string list"

definition lookupRequest :: "dataRequest list \<Rightarrow> string \<Rightarrow> nat option" where
  "lookupRequest requests requestId = findIndex (\<lambda>r. dr_requestId r = requestId) requests"

text \<open>Modelled from the spec: "look up the DataRequest by requestId; if found and in
  awaiting-response, attach the delivered records and transition to fulfilled; if not found
  (unknown or already-resolved requestId), the response is a duplicate or stale delivery
  and is discarded (logged, not an error surfaced to the caller)".\<close>

definition onResponse :: "dataRequest list \<Rightarrow> dataResponse \<Rightarrow> delivery" where
  "onResponse requests response =
     (case lookupRequest requests (ds_requestId response) of
        None \<Rightarrow>
          \<lparr>dv_requests = requests, dv_reply = Acknowledged,
           dv_log = [''discarded response for unknown request '' @ ds_requestId response]\<rparr>
      | Some i \<Rightarrow>
          if dr_status (requests ! i) = awaiting_response
          then \<lparr>dv_requests = requests[i := (requests ! i)\<lparr>dr_status := fulfilled,
                   dr_records := ds_records response\<rparr>],
                dv_reply = Acknowledged, dv_log = []\<rparr>
          else \<lparr>dv_requests = requests, dv_reply = Acknowledged,
                dv_log = [''discarded response for resolved request '' @ ds_requestId response]\<rparr>)"

definition requestAwaiting :: dataRequest where
  "requestAwaiting = \<lparr>dr_requestId = ''Q1'', dr_hiuId = ''hiu-001'', dr_consentId = ''K1'',
     dr_careContextIds = [''C1''], dr_dataTypes = [''PRESCRIPTION''],
     dr_status = awaiting_response, dr_records = []\<rparr>"

definition requestFulfilled :: dataRequest where
  "requestFulfilled = \<lparr>dr_requestId = ''Q2'', dr_hiuId = ''hiu-001'', dr_consentId = ''K1'',
     dr_careContextIds = [''C1''], dr_dataTypes = [''PRESCRIPTION''],
     dr_status = fulfilled, dr_records = [''rec-1'']\<rparr>"

section \<open>Properties of the correlation id generator\<close>

lemma word4_cases:
  "(r :: 4 word) \<in> {0, 1, 2, 3, 4, 5, 6, 7, 8, 9, 10, 11, 12, 13, 14, 15}"
proof -
  have "unat r < 16"
    using unsigned_less [of r] by simp
  then have "unat r = 0 \<or> unat r = 1 \<or> unat r = 2 \<or> unat r = 3 \<or> unat r = 4 \<or> unat r = 5
      \<or> unat r = 6 \<or> unat r = 7 \<or> unat r = 8 \<or> unat r = 9 \<or> unat r = 10 \<or> unat r = 11
      \<or> unat r = 12 \<or> unat r = 13 \<or> unat r = 14 \<or> unat r = 15"
    by arith
  moreover have "\<And>k. unat r = k \<Longrightarrow> r = of_nat k"
    by auto
  ultimately have "r = of_nat 0 \<or> r = of_nat 1 \<or> r = of_nat 2 \<or> r = of_nat 3 \<or> r = of_nat 4
      \<or> r = of_nat 5 \<or> r = of_nat 6 \<or> r = of_nat 7 \<or> r = of_nat 8 \<or> r = of_nat 9
      \<or> r = of_nat 10 \<or> r = of_nat 11 \<or> r = of_nat 12 \<or> r = of_nat 13 \<or> r = of_nat 14
      \<or> r = of_nat 15"
    by blast
  then show ?thesis by simp
qed

lemma toString16_hex: "isHexDigit (toString16 v)"
  using word4_cases [of v] by (auto simp: toString16_def isHexDigit_def)

lemma toString16_inj: "toString16 a = toString16 b \<longleftrightarrow> a = b"
  using word4_cases [of a] word4_cases [of b] by (auto simp: toString16_def)

lemma toString16_variant:
  "toString16 ((r AND 3) OR 8) = CHR ''8'' \<or> toString16 ((r AND 3) OR 8) = CHR ''9''
   \<or> toString16 ((r AND 3) OR 8) = CHR ''a'' \<or> toString16 ((r AND 3) OR 8) = CHR ''b''"
  using word4_cases [of r] by (auto simp: toString16_def)

lemma variant_bits_eq:
  "(a AND 3) OR 8 = (b AND 3) OR (8 :: 4 word) \<longleftrightarrow> a AND 3 = b AND 3"
  using word4_cases [of a] word4_cases [of b] by auto

lemma replacer_x_eq: "replacer CHR ''x'' a = replacer CHR ''x'' b \<longleftrightarrow> a = b"
  by (simp add: replacer_def toString16_inj)

lemma replacer_y_eq: "replacer CHR ''y'' a = replacer CHR ''y'' b \<longleftrightarrow> a AND 3 = b AND 3"
  by (simp add: replacer_def toString16_inj variant_bits_eq)

lemma replacer_x_hex: "isHexDigit (replacer CHR ''x'' r)"
  by (simp add: replacer_def toString16_hex)

lemma replacer_y_variant:
  "replacer CHR ''y'' r = CHR ''8'' \<or> replacer CHR ''y'' r = CHR ''9''
   \<or> replacer CHR ''y'' r = CHR ''a'' \<or> replacer CHR ''y'' r = CHR ''b''"
  using toString16_variant [of r] by (simp add: replacer_def)

text \<open>The template has 31 placeholders; the 16th (draw 15) is the \<open>y\<close>.\<close>

lemma generateUUID_unfold:
  "generateUUID rnd =
     [replacer CHR ''x'' (rnd 0), replacer CHR ''x'' (rnd 1), replacer CHR ''x'' (rnd 2),
      replacer CHR ''x'' (rnd 3), replacer CHR ''x'' (rnd 4), replacer CHR ''x'' (rnd 5),
      replacer CHR ''x'' (rnd 6), replacer CHR ''x'' (rnd 7), CHR ''-'',
      replacer CHR ''x'' (rnd 8), replacer CHR ''x'' (rnd 9), replacer CHR ''x'' (rnd 10),
      replacer CHR ''x'' (rnd 11), CHR ''-'', CHR ''4'',
      replacer CHR ''x'' (rnd 12), replacer CHR ''x'' (rnd 13), replacer CHR ''x'' (rnd 14),
      CHR ''-'', replacer CHR ''y'' (rnd 15),
      replacer CHR ''x'' (rnd 16), replacer CHR ''x'' (rnd 17), replacer CHR ''x'' (rnd 18),
      CHR ''-'',
      replacer CHR ''x'' (rnd 19), replacer CHR ''x'' (rnd 20), replacer CHR ''x'' (rnd 21),
      replacer CHR ''x'' (rnd 22), replacer CHR ''x'' (rnd 23), replacer CHR ''x'' (rnd 24),
      replacer CHR ''x'' (rnd 25), replacer CHR ''x'' (rnd 26), replacer CHR ''x'' (rnd 27),
      replacer CHR ''x'' (rnd 28), replacer CHR ''x'' (rnd 29), replacer CHR ''x'' (rnd 30)]"
  by (simp add: generateUUID_def uuidTemplate_def eval_nat_numeral)

lemma upt_31:
  "[0..<31] = [0, 1, 2, 3, 4, 5, 6, 7, 8, 9, 10, 11, 12, 13, 14, 15, 16, 17, 18, 19, 20,
     21, 22, 23, 24, 25, 26, 27, 28, 29, 30 :: nat]"
  by code_simp

lemma upt_36:
  "[0..<36] = [0, 1, 2, 3, 4, 5, 6, 7, 8, 9, 10, 11, 12, 13, 14, 15, 16, 17, 18, 19, 20,
     21, 22, 23, 24, 25, 26, 27, 28, 29, 30, 31, 32, 33, 34, 35 :: nat]"
  by code_simp

lemma all_less_31:
  "(\<forall>k<31. P k) \<longleftrightarrow> list_all P [0, 1, 2, 3, 4, 5, 6, 7, 8, 9, 10, 11, 12, 13, 14, 15, 16,
     17, 18, 19, 20, 21, 22, 23, 24, 25, 26, 27, 28, 29, 30 :: nat]"
proof -
  have "(\<forall>k<31. P k) \<longleftrightarrow> (\<forall>k\<in>set [0..<31]. P k)"
    by auto
  then show ?thesis
    unfolding upt_31 list_all_iff .
qed

lemma all_less_36:
  "(\<forall>k<36. P k) \<longleftrightarrow> list_all P [0, 1, 2, 3, 4, 5, 6, 7, 8, 9, 10, 11, 12, 13, 14, 15, 16,
     17, 18, 19, 20, 21, 22, 23, 24, 25, 26, 27, 28, 29, 30, 31, 32, 33, 34, 35 :: nat]"
proof -
  have "(\<forall>k<36. P k) \<longleftrightarrow> (\<forall>k\<in>set [0..<36]. P k)"
    by auto
  then show ?thesis
    unfolding upt_36 list_all_iff .
qed

lemma all_less_31_except_15:
  "(\<forall>k<31. k \<noteq> 15 \<longrightarrow> P k) \<longleftrightarrow>
     P 0 \<and> P 1 \<and> P 2 \<and> P 3 \<and> P 4 \<and> P 5 \<and> P 6 \<and> P 7 \<and> P 8 \<and> P 9 \<and> P 10 \<and> P 11 \<and> P 12
     \<and> P 13 \<and> P (14 :: nat) \<and> P 16 \<and> P 17 \<and> P 18 \<and> P 19 \<and> P 20 \<and> P 21 \<and> P 22 \<and> P 23
     \<and> P 24 \<and> P 25 \<and> P 26 \<and> P 27 \<and> P 28 \<and> P 29 \<and> P 30"
  unfolding all_less_31 by simp

lemma generateUUID_format:
  "length (generateUUID rnd) = 36 \<and>
   (\<forall>i<36. if i \<in> {8, 13, 18, 23} then generateUUID rnd ! i = CHR ''-''
      else if i = 14 then generateUUID rnd ! i = CHR ''4''
      else if i = 19 then generateUUID rnd ! i \<in> {CHR ''8'', CHR ''9'', CHR ''a'', CHR ''b''}
      else isHexDigit (generateUUID rnd ! i))"
  unfolding all_less_36 generateUUID_unfold
  using replacer_y_variant [of "rnd 15"] by (simp add: replacer_x_hex)

lemma generateUUID_eq_iff:
  "generateUUID r1 = generateUUID r2 \<longleftrightarrow>
     (\<forall>k<31. k \<noteq> 15 \<longrightarrow> r1 k = r2 k) \<and> r1 15 AND 3 = r2 15 AND 3"
  unfolding all_less_31_except_15 generateUUID_unfold
  apply (simp only: list.inject replacer_x_eq replacer_y_eq simp_thms)
  apply blast
  done

text \<open>
  Claim C8, as amended. The generator keeps no state of its own: an identifier is a function
  of the 31 draws it takes. Every identifier has 36 characters, hyphens at positions 8, 13,
  18 and 23, the version digit \<open>4\<close> at position 14, one of \<open>8\<close>, \<open>9\<close>, \<open>a\<close>, \<open>b\<close> at position
  19 and lower-case hexadecimal digits everywhere else. Two identifiers are equal exactly
  when the draws agree at the thirty \<open>x\<close> positions and agree in their two low bits at the
  \<open>y\<close> position: distinct identifiers are as likely as distinct draws, not guaranteed.
\<close>

theorem generateUUID_format_and_equality:
  "length (generateUUID r1) = 36 \<and>
   (\<forall>i<36. if i \<in> {8, 13, 18, 23} then generateUUID r1 ! i = CHR ''-''
      else if i = 14 then generateUUID r1 ! i = CHR ''4''
      else if i = 19 then generateUUID r1 ! i \<in> {CHR ''8'', CHR ''9'', CHR ''a'', CHR ''b''}
      else isHexDigit (generateUUID r1 ! i)) \<and>
   (generateUUID r1 = generateUUID r2 \<longleftrightarrow>
      (\<forall>k<31. k \<noteq> 15 \<longrightarrow> r1 k = r2 k) \<and> r1 15 AND 3 = r2 15 AND 3)"
proof -
  note fmt = generateUUID_format [of r1]
  from fmt have len: "length (generateUUID r1) = 36" ..
  from fmt have pos: "\<forall>i<36. if i \<in> {8, 13, 18, 23} then generateUUID r1 ! i = CHR ''-''
      else if i = 14 then generateUUID r1 ! i = CHR ''4''
      else if i = 19 then generateUUID r1 ! i \<in> {CHR ''8'', CHR ''9'', CHR ''a'', CHR ''b''}
      else isHexDigit (generateUUID r1 ! i)" ..
  from len pos generateUUID_eq_iff [of r1 r2] show ?thesis
    by (intro conjI)
qed

theorem generateUUID_format_and_equality_witness:
  "generateUUID drawsA ! 14 = CHR ''4'' \<and> isHexDigit (generateUUID drawsA ! 0)
   \<and> generateUUID drawsA = generateUUID drawsB \<and> generateUUID drawsA \<noteq> generateUUID drawsC"
proof -
  note ab = generateUUID_format_and_equality [of drawsA drawsB]
  note ac = generateUUID_format_and_equality [of drawsA drawsC]
  from ab have pos: "\<forall>i<36. if i \<in> {8, 13, 18, 23} then generateUUID drawsA ! i = CHR ''-''
      else if i = 14 then generateUUID drawsA ! i = CHR ''4''
      else if i = 19 then generateUUID drawsA ! i \<in> {CHR ''8'', CHR ''9'', CHR ''a'', CHR ''b''}
      else isHexDigit (generateUUID drawsA ! i)"
    by (elim conjE)
  from pos [rule_format, of 14] have p14: "generateUUID drawsA ! 14 = CHR ''4''"
    by simp
  from pos [rule_format, of 0] have p0: "isHexDigit (generateUUID drawsA ! 0)"
    by simp
  from ab have "generateUUID drawsA = generateUUID drawsB \<longleftrightarrow>
      (\<forall>k<31. k \<noteq> 15 \<longrightarrow> drawsA k = drawsB k) \<and> drawsA 15 AND 3 = drawsB 15 AND 3"
    by (elim conjE)
  then have eq: "generateUUID drawsA = generateUUID drawsB"
    by (simp add: drawsA_def drawsB_def)
  from ac have "generateUUID drawsA = generateUUID drawsC \<longleftrightarrow>
      (\<forall>k<31. k \<noteq> 15 \<longrightarrow> drawsA k = drawsC k) \<and> drawsA 15 AND 3 = drawsC 15 AND 3"
    by (elim conjE)
  moreover have "\<not> (\<forall>k<31. k \<noteq> 15 \<longrightarrow> drawsA k = drawsC k)"
  proof
    assume "\<forall>k<31. k \<noteq> 15 \<longrightarrow> drawsA k = drawsC k"
    then have "drawsA 0 = drawsC 0" by simp
    then show False by (simp add: drawsA_def drawsC_def)
  qed
  ultimately have ne: "generateUUID drawsA \<noteq> generateUUID drawsC"
    by blast
  from p14 p0 eq ne show ?thesis
    by (intro conjI)
qed

text \<open>
  Claim C8 as stated says that any two generated identifiers are distinct. Two runs whose
  draws differ (0 and 4 for the \<open>y\<close>) give the same identifier.
\<close>

theorem generateUUID_distinct_counterexample:
  "drawsA 15 \<noteq> drawsB 15 \<and> generateUUID drawsA = generateUUID drawsB
   \<and> generateUUID drawsA = ''00000000-0000-4000-8000-000000000000''"
  by (simp add: generateUUID_unfold drawsA_def drawsB_def replacer_def toString16_def)

section \<open>Properties of the Aadhaar cells\<close>

text \<open>
  Claim C7, as amended. For every patient whose Aadhaar has at least eight characters, the
  patient list and the patient-details modal both show the first four characters, then
  \<open>****\<close>, then the last four characters, and the characters between them (all but eight)
  are not part of what is shown.
\<close>

theorem aadhaar_masked_on_display:
  assumes "p_aadhaar p = Some a" and "8 \<le> length a"
  shows "\<exists>first middle last.
           a = first @ middle @ last \<and> length first = 4 \<and> length last = 4
           \<and> length middle = length a - 8
           \<and> loadPatients_aadhaarCell p = first @ ''****'' @ last
           \<and> viewPatient_aadhaarCell p = first @ ''****'' @ last"
proof -
  let ?first = "take 4 a"
  let ?middle = "take (length a - 8) (drop 4 a)"
  let ?last = "drop (length a - 4) a"
  have ne: "a \<noteq> []"
    using assms(2) by auto
  have "drop (length a - 8) (drop 4 a) = ?last"
    using assms(2) by (simp add: add.commute)
  then have "?middle @ ?last = drop 4 a"
    by (metis append_take_drop_id)
  then have split: "a = ?first @ ?middle @ ?last"
    by (metis append_take_drop_id)
  have lens: "length ?first = 4" "length ?last = 4" "length ?middle = length a - 8"
    using assms(2) by auto
  have cells: "loadPatients_aadhaarCell p = ?first @ ''****'' @ ?last"
    "viewPatient_aadhaarCell p = ?first @ ''****'' @ ?last"
    using assms(1) ne
    by (simp_all add: loadPatients_aadhaarCell_def viewPatient_aadhaarCell_def
        slice_0_4_def slice_neg4_def)
  from split lens cells show ?thesis
    by blast
qed

theorem aadhaar_masked_on_display_witness:
  "p_aadhaar patientFull = Some ''123456789012'' \<and> 8 \<le> length ''123456789012''
   \<and> (\<exists>first middle last.
           ''123456789012'' = first @ middle @ last \<and> length first = 4 \<and> length last = 4
           \<and> length middle = length ''123456789012'' - 8
           \<and> loadPatients_aadhaarCell patientFull = first @ ''****'' @ last
           \<and> viewPatient_aadhaarCell patientFull = first @ ''****'' @ last)"
proof -
  have h1: "p_aadhaar patientFull = Some ''123456789012''"
    by (simp add: patientFull_def)
  have h2: "8 \<le> length ''123456789012''"
    by simp
  from h1 h2 aadhaar_masked_on_display [OF h1 h2] show ?thesis
    by (intro conjI)
qed

text \<open>
  Claim C7 as stated covers every non-empty Aadhaar. For the five characters \<open>12345\<close> the
  cell is \<open>1234****2345\<close>: it is not four leading and four trailing characters around a
  hidden middle, and every character of the number is on display.
\<close>

theorem aadhaar_masked_counterexample:
  "loadPatients_aadhaarCell patientShort = ''1234****2345''
   \<and> viewPatient_aadhaarCell patientShort = ''1234****2345''
   \<and> \<not> (\<exists>first middle last.
           p_aadhaar patientShort = Some (first @ middle @ last)
           \<and> length first = 4 \<and> length last = 4)"
proof -
  have cells: "loadPatients_aadhaarCell patientShort = ''1234****2345''"
    "viewPatient_aadhaarCell patientShort = ''1234****2345''"
    by (simp_all add: loadPatients_aadhaarCell_def viewPatient_aadhaarCell_def
        slice_0_4_def slice_neg4_def patientShort_def)
  have none: "\<not> (\<exists>first middle last.
           p_aadhaar patientShort = Some (first @ middle @ last)
           \<and> length first = 4 \<and> length last = 4)"
  proof
    assume "\<exists>first middle last.
           p_aadhaar patientShort = Some (first @ middle @ last)
           \<and> length first = 4 \<and> length last = 4"
    then obtain first middle last :: string
      where eq: "''12345'' = first @ middle @ last"
        and len: "length first = 4" "length last = 4"
      by (auto simp: patientShort_def)
    from eq have "length ''12345'' = length (first @ middle @ last)"
      by (rule arg_cong)
    with len show False
      by simp
  qed
  from cells none show ?thesis
    by (intro conjI)
qed

section \<open>Properties of the visit pages\<close>





section \<open>Properties of clearing the webhook queue\<close>

text \<open>
  Claim C5. The clear of the webhook queue is sent exactly when the operator has confirmed,
  and the confirmation is asked first. When the operator declines, no request is sent and
  the queue is unchanged; when the clear runs and the node answers, the queue is empty,
  whatever it held.
\<close>

theorem clearWebhookQueue_guarded:
  "(WebhooksClearQueue \<in> set (calls (fst (clearWebhookQueue confirmed failure queue)))
      \<longleftrightarrow> confirmed)
   \<and> hd (fst (clearWebhookQueue confirmed failure queue)) = Confirm
   \<and> (\<not> confirmed \<longrightarrow> calls (fst (clearWebhookQueue confirmed failure queue)) = []
         \<and> snd (clearWebhookQueue confirmed failure queue) = queue)
   \<and> (confirmed \<and> failure = None \<longrightarrow> snd (clearWebhookQueue confirmed failure queue) = [])"
  by (cases failure)
    (simp_all add: clearWebhookQueue_def api_webhooks_clearQueue_def webhookQueue_DELETE_def
      calls_def)

theorem clearWebhookQueue_guarded_witness:
  "calls (fst (clearWebhookQueue False None queueTwo)) = []
   \<and> snd (clearWebhookQueue False None queueTwo) = queueTwo
   \<and> WebhooksClearQueue \<in> set (calls (fst (clearWebhookQueue True None queueTwo)))
   \<and> snd (clearWebhookQueue True None queueTwo) = []"
proof -
  note declined = clearWebhookQueue_guarded [of False None queueTwo]
  note accepted = clearWebhookQueue_guarded [of True None queueTwo]
  from declined have "calls (fst (clearWebhookQueue False None queueTwo)) = []
      \<and> snd (clearWebhookQueue False None queueTwo) = queueTwo"
    by simp
  moreover from accepted
  have "WebhooksClearQueue \<in> set (calls (fst (clearWebhookQueue True None queueTwo)))"
    by simp
  moreover from accepted have "snd (clearWebhookQueue True None queueTwo) = []"
    by simp
  ultimately show ?thesis
    by (intro conjI) blast+
qed

section \<open>Properties of the record form\<close>

lemma calls_Nil: "calls [] = []"
  by (simp add: calls_def)

lemma calls_Cons:
  "calls (e # es) = (case e of Call c \<Rightarrow> [c] | _ \<Rightarrow> []) @ calls es"
  by (simp add: calls_def)

lemma calls_append: "calls (xs @ ys) = calls xs @ calls ys"
  by (simp add: calls_def)

lemma toasts_Nil: "toasts [] = []"
  by (simp add: toasts_def)

lemma toasts_Cons:
  "toasts (e # es) = (case e of Toast t \<Rightarrow> [t] | _ \<Rightarrow> []) @ toasts es"
  by (simp add: toasts_def)

lemma toasts_append: "toasts (xs @ ys) = toasts xs @ toasts ys"
  by (simp add: toasts_def)

lemma notifyGateway_undefined:
  "callMethod api_healthRecords ''notifyGateway'' notified
     = Inl (TypeError ''notifyGateway is not a function'')"
  by (simp add: callMethod_def api_healthRecords_def)

text \<open>The care-context step makes one call, the create-and-link request, and shows one
  toast about the care context, whatever the answer is.\<close>

lemma createAndLinkCareContext_calls:
  "calls (fst (createAndLinkCareContext p d t y answer pg))
     = [CareContextsCreateAndLink (createAndLinkCareContext_request p d t y)]"
  by (simp add: createAndLinkCareContext_def Let_def calls_Cons calls_Nil split: sum.splits)

lemma createAndLinkCareContext_toasts:
  "\<exists>t. toasts (fst (createAndLinkCareContext p d ty y answer pg)) = [t]
       \<and> t \<noteq> SuccessRecordRegisteredWithGateway \<and> t \<noteq> SuccessRecordNotificationPending
       \<and> (\<forall>m. t \<noteq> ErrorRecordCreateFailed m)"
  by (simp add: createAndLinkCareContext_def Let_def toasts_Cons toasts_Nil split: sum.splits)

text \<open>The events of a submission that passes both checks and whose record is created.\<close>

lemma handleCreateHealthRecord_created:
  assumes "formValid form" and "created = Inr recordId"
  shows "fst (handleCreateHealthRecord form fullYear created linkAnswer notified pg) =
           Call (HealthRecordsCreate ''/api/health-records/undefined''
               (handleCreateHealthRecord_recordData form))
           # (if \<not> truthy (selectedCareContext pg) \<and> selectedVisit pg \<noteq> None
              then fst (createAndLinkCareContext (Some (trim (f_patientId form)))
                     (str_or (f_department form) ''General'') (f_recordType form) fullYear
                     linkAnswer pg)
              else [])
           @ [Toast SuccessRecordNotificationPending]"
  using assms
  by (simp add: handleCreateHealthRecord_def formValid_def Let_def notifyGateway_undefined
      api_healthRecords_create_endpoint_def recordData_patient_id_def js_template_def
      split: prod.splits)

lemma handleCreateHealthRecord_no_notify_call:
  "\<not> list_ex isNotifyGatewayCall
       (calls (fst (handleCreateHealthRecord form fullYear created linkAnswer notified pg)))"
  by (simp add: handleCreateHealthRecord_def Let_def notifyGateway_undefined calls_Cons
      calls_Nil calls_append createAndLinkCareContext_calls case_prod_beta
      split: sum.splits)

text \<open>
  Claim C10. \<open>api.healthRecords\<close> has no \<open>notifyGateway\<close>, so the call in step 3 of the record
  form throws before any request is made. Whatever the form holds and whatever the node
  answers, no notification call is made and the "registered with ABDM Gateway" message is
  never shown; and whenever the form passes its checks and the record is created, the
  create request is the first call, the submission ends with the success message that says
  the gateway notification is pending, and no failure message about the record is shown.
\<close>

theorem notifyGateway_missing_never_blocks:
  "callMethod api_healthRecords ''notifyGateway'' notified
     = Inl (TypeError ''notifyGateway is not a function'')
   \<and> \<not> list_ex isNotifyGatewayCall
         (calls (fst (handleCreateHealthRecord form fullYear created linkAnswer notified pg)))
   \<and> SuccessRecordRegisteredWithGateway
        \<notin> set (toasts (fst (handleCreateHealthRecord form fullYear created linkAnswer notified pg)))
   \<and> (formValid form \<and> created = Inr recordId \<longrightarrow>
        hd (calls (fst (handleCreateHealthRecord form fullYear created linkAnswer notified pg)))
          = HealthRecordsCreate ''/api/health-records/undefined''
               (handleCreateHealthRecord_recordData form)
        \<and> last (fst (handleCreateHealthRecord form fullYear created linkAnswer notified pg))
          = Toast SuccessRecordNotificationPending
        \<and> (\<forall>m. ErrorRecordCreateFailed m
              \<notin> set (toasts (fst (handleCreateHealthRecord form fullYear created linkAnswer
                    notified pg)))))"
proof -
  let ?events = "fst (handleCreateHealthRecord form fullYear created linkAnswer notified pg)"
  obtain t where t: "toasts (fst (createAndLinkCareContext (Some (trim (f_patientId form)))
        (str_or (f_department form) ''General'') (f_recordType form) fullYear linkAnswer pg)) = [t]"
      "t \<noteq> SuccessRecordRegisteredWithGateway" "t \<noteq> SuccessRecordNotificationPending"
      "\<forall>m. t \<noteq> ErrorRecordCreateFailed m"
    using createAndLinkCareContext_toasts by blast
  have registered: "SuccessRecordRegisteredWithGateway \<notin> set (toasts ?events)"
    using t
    by (auto simp: handleCreateHealthRecord_def Let_def notifyGateway_undefined toasts_Cons
        toasts_Nil toasts_append case_prod_beta split: sum.splits)
  have ok: "hd (calls ?events) = HealthRecordsCreate ''/api/health-records/undefined''
               (handleCreateHealthRecord_recordData form)
      \<and> last ?events = Toast SuccessRecordNotificationPending
      \<and> (\<forall>m. ErrorRecordCreateFailed m \<notin> set (toasts ?events))"
    if "formValid form" and "created = Inr recordId"
    using t
    by (auto simp: handleCreateHealthRecord_created [OF that] calls_Cons toasts_Cons
        toasts_Nil toasts_append)
  from notifyGateway_undefined [of notified]
    handleCreateHealthRecord_no_notify_call [of form fullYear created linkAnswer notified pg]
    registered ok
  show ?thesis
    by (intro conjI impI) blast+
qed

theorem notifyGateway_missing_never_blocks_witness:
  "formValid formFilled
   \<and> hd (calls (fst (handleCreateHealthRecord formFilled ''2025'' (Inr (Some ''R1''))
          (Inl (Error ''Failed to fetch'')) (Inr ()) pageSelected)))
        = HealthRecordsCreate ''/api/health-records/undefined''
            (handleCreateHealthRecord_recordData formFilled)
   \<and> last (fst (handleCreateHealthRecord formFilled ''2025'' (Inr (Some ''R1''))
          (Inl (Error ''Failed to fetch'')) (Inr ()) pageSelected))
        = Toast SuccessRecordNotificationPending"
proof -
  have valid: "formValid formFilled"
    by (simp add: formValid_def formFilled_def trim_def isSpace_def)
  from valid notifyGateway_missing_never_blocks [of "Inr ()" formFilled "''2025''"
      "Inr (Some ''R1'')" "Inl (Error ''Failed to fetch'')" pageSelected "Some ''R1''"]
  show ?thesis
    by simp
qed

section \<open>Properties of the record page as a whole\<close>


















section \<open>Properties of the linking engine\<close>

lemma findIndex_Some:
  "findIndex P xs = Some i \<Longrightarrow> i < length xs \<and> P (xs ! i) \<and> (\<forall>j<i. \<not> P (xs ! j))"
proof (induction xs arbitrary: i)
  case Nil
  then show ?case by simp
next
  case (Cons x xs)
  show ?case
  proof (cases "P x")
    case True
    with Cons.prems show ?thesis by simp
  next
    case False
    with Cons.prems obtain k where k: "findIndex P xs = Some k" "i = Suc k"
      by auto
    from Cons.IH [OF k(1)] False k(2) show ?thesis
      by (auto simp: less_Suc_eq_0_disj)
  qed
qed

lemma findIndex_None: "findIndex P xs = None \<longleftrightarrow> (\<forall>x\<in>set xs. \<not> P x)"
  by (induction xs) auto

lemma findIndex_None_filter: "findIndex P xs = None \<Longrightarrow> filter P xs = []"
  by (simp add: findIndex_None filter_empty_conv)

lemma findIndex_Some_filter: "findIndex P xs = Some i \<Longrightarrow> filter P xs \<noteq> []"
  by (auto simp: filter_empty_conv dest!: findIndex_Some)

lemma findIndex_append_new:
  "findIndex P xs = None \<Longrightarrow> P y \<Longrightarrow> findIndex P (xs @ [y]) = Some (length xs)"
  by (induction xs) (auto split: if_splits)

lemma length_applyBindResult [simp]:
  "length (applyBindResult contexts i result) = length contexts"
  by (simp add: applyBindResult_def)

lemma map_sameVisit_bind:
  "map (sameVisit p v) (applyBindResult contexts i result) = map (sameVisit p v) contexts"
proof (cases "i < length contexts")
  case True
  have "sameVisit p v (case result of
        BindOk \<Rightarrow> (contexts ! i)\<lparr>cc_linkingStatus := linked, cc_linkingError := None\<rparr>
      | BindFailed failure \<Rightarrow>
          (contexts ! i)\<lparr>cc_linkingStatus := failed,
             cc_linkingError := Some (linkingErrorText failure)\<rparr>)
      = map (sameVisit p v) contexts ! i"
    using True by (simp add: sameVisit_def split: bindResult.splits)
  then show ?thesis
    by (simp add: applyBindResult_def map_update)
next
  case False
  then have "length contexts \<le> i"
    by simp
  then show ?thesis
    by (simp add: applyBindResult_def list_update_beyond)
qed

lemma findIndex_map: "findIndex P xs = findIndex id (map P xs)"
  by (induction xs) auto

lemma filter_sameVisit_bind:
  "length (filter (sameVisit p v) (applyBindResult contexts i result))
     = length (filter (sameVisit p v) contexts)"
proof -
  have eq: "length (filter (sameVisit p v) xs) = length (filter id (map (sameVisit p v) xs))"
    for xs
    by (simp add: filter_map comp_def)
  show ?thesis
    by (simp only: eq map_sameVisit_bind)
qed

lemma findIndex_sameVisit_bind:
  "findIndex (sameVisit p v) (applyBindResult contexts i result)
     = findIndex (sameVisit p v) contexts"
  using findIndex_map [of "sameVisit p v" "applyBindResult contexts i result"]
    findIndex_map [of "sameVisit p v" contexts]
  by (simp add: map_sameVisit_bind)

lemma contextId_bind:
  "j < length contexts \<Longrightarrow>
   cc_contextId (applyBindResult contexts i result ! j) = cc_contextId (contexts ! j)"
  by (cases "j = i") (simp_all add: applyBindResult_def split: bindResult.splits)

text \<open>The engine never adds a second row for a key: after a call for \<open>(p, v)\<close> there is one
  row more if there was none, and the same rows otherwise; the rows of other keys are
  not counted differently.\<close>

lemma createAndLink_count:
  assumes "createAndLink patients contexts p v name newId result = Inr (contexts', c, bind)"
  shows "countContexts contexts' p v = max 1 (countContexts contexts p v)"
    and "length contexts' = (if lookupContext contexts p v = None then Suc (length contexts)
           else length contexts)"
    and "lookupContext contexts' p v
           = (case lookupContext contexts p v of None \<Rightarrow> Some (length contexts) | Some i \<Rightarrow> Some i)"
    and "c = contexts' ! the (lookupContext contexts' p v)"
proof -
  have new: "sameVisit p v \<lparr>cc_contextId = newId, cc_patientId = p, cc_visitId = v,
              cc_contextName = name, cc_contextType = None,
              cc_linkingStatus = pending, cc_linkingError = None\<rparr>"
    by (simp add: sameVisit_def)
  show "countContexts contexts' p v = max 1 (countContexts contexts p v)"
  proof (cases "lookupContext contexts p v")
    case None
    then have "filter (sameVisit p v) contexts = []"
      by (simp add: lookupContext_def findIndex_None_filter)
    with assms None new show ?thesis
      by (auto simp: createAndLink_def createLocal_def countContexts_def Let_def
          filter_sameVisit_bind split: if_splits)
  next
    case (Some i)
    then have "filter (sameVisit p v) contexts \<noteq> []"
      by (simp add: lookupContext_def findIndex_Some_filter)
    then have "1 \<le> length (filter (sameVisit p v) contexts)"
      by (cases "filter (sameVisit p v) contexts") auto
    with assms Some show ?thesis
      by (auto simp: createAndLink_def createLocal_def countContexts_def Let_def
          filter_sameVisit_bind split: if_splits)
  qed
  show "length contexts' = (if lookupContext contexts p v = None then Suc (length contexts)
           else length contexts)"
    using assms
    by (auto simp: createAndLink_def createLocal_def Let_def split: if_splits option.splits)
  show look: "lookupContext contexts' p v
           = (case lookupContext contexts p v of None \<Rightarrow> Some (length contexts) | Some i \<Rightarrow> Some i)"
    using assms new
    by (auto simp: createAndLink_def createLocal_def Let_def lookupContext_def
        findIndex_sameVisit_bind findIndex_append_new split: if_splits option.splits)
  show "c = contexts' ! the (lookupContext contexts' p v)"
    unfolding look using assms
    by (auto simp: createAndLink_def createLocal_def Let_def split: if_splits option.splits)
qed

lemma createAndLink_reuse:
  assumes "lookupContext contexts p v = Some i"
    and "createAndLink patients contexts p v name newId result = Inr (contexts', c, bind)"
  shows "length contexts' = length contexts \<and> c = contexts' ! i
    \<and> cc_contextId c = cc_contextId (contexts ! i)"
proof -
  from assms(1) have "i < length contexts"
    by (auto simp: lookupContext_def dest: findIndex_Some)
  with assms show ?thesis
    by (auto simp: createAndLink_def createLocal_def Let_def contextId_bind split: if_splits)
qed

lemma handleVisitSelection_sends_request:
  "findSelectedVisit (allVisits pg) sel = Some v \<Longrightarrow> sel \<noteq> [] \<Longrightarrow>
   calls (fst (handleVisitSelection sel fullYear answer pg))
     = [CareContextsCreateAndLink (handleVisitSelection_request v fullYear)]"
  by (simp add: handleVisitSelection_def handleVisitSelection_request_def
      createAndLinkCareContext_calls)

text \<open>
  Claim C1. Create-and-link is idempotent per pair of patient and visit: the engine first
  looks an existing context up by the pair. For every pair, two calls in sequence leave
  the rows that the first call left: the second call adds no row and answers with the
  context of the first call, there is exactly one context of the pair if there was none
  before, and a context that has not failed is reused as it is, without a call to the
  broker.
\<close>

theorem createAndLink_idempotent:
  assumes "createAndLink patients contexts p v name1 id1 result1 = Inr (contexts1, c1, bind1)"
    and "createAndLink patients contexts1 p v name2 id2 result2 = Inr (contexts2, c2, bind2)"
  shows "length contexts2 = length contexts1
    \<and> countContexts contexts2 p v = countContexts contexts1 p v
    \<and> countContexts contexts2 p v = max 1 (countContexts contexts p v)
    \<and> (lookupContext contexts p v = None \<longrightarrow> countContexts contexts2 p v = 1)
    \<and> cc_contextId c2 = cc_contextId c1
    \<and> cc_patientId c1 = p \<and> cc_visitId c1 = v
    \<and> (cc_linkingStatus c1 \<noteq> failed \<longrightarrow> contexts2 = contexts1 \<and> c2 = c1 \<and> \<not> bind2)"
proof -
  note first = createAndLink_count [OF assms(1)]
  note second = createAndLink_count [OF assms(2)]
  from first(3) obtain i where i: "lookupContext contexts1 p v = Some i"
    by (cases "lookupContext contexts p v") auto
  with first(4) have c1_row: "c1 = contexts1 ! i"
    by simp
  from i have key: "sameVisit p v (contexts1 ! i)" and bound: "i < length contexts1"
    by (auto simp: lookupContext_def dest: findIndex_Some)
  note reuse = createAndLink_reuse [OF i assms(2)]
  have len: "length contexts2 = length contexts1"
    using reuse by simp
  have one: "1 \<le> countContexts contexts1 p v"
    using first(1) by simp
  have count2: "countContexts contexts2 p v = countContexts contexts1 p v"
    using second(1) one by simp
  have count: "countContexts contexts2 p v = max 1 (countContexts contexts p v)"
    using count2 first(1) by simp
  have fresh: "countContexts contexts2 p v = 1" if "lookupContext contexts p v = None"
  proof -
    from that have "countContexts contexts p v = 0"
      by (simp add: lookupContext_def countContexts_def findIndex_None_filter)
    with count show ?thesis
      by simp
  qed
  from reuse have "cc_contextId c2 = cc_contextId (contexts1 ! i)"
    by (elim conjE)
  with c1_row have same: "cc_contextId c2 = cc_contextId c1"
    by (simp only:)
  have keys: "cc_patientId c1 = p \<and> cc_visitId c1 = v"
    using key c1_row by (simp add: sameVisit_def)
  have kept: "contexts2 = contexts1 \<and> c2 = c1 \<and> \<not> bind2" if "cc_linkingStatus c1 \<noteq> failed"
    using that assms(2) i c1_row
    by (auto simp: createAndLink_def createLocal_def Let_def split: if_splits)
  from len count2 count fresh same keys kept show ?thesis
    by (intro conjI impI) simp_all
qed

theorem createAndLink_idempotent_witness:
  "createAndLink [''P1''] [] ''P1'' (Some ''V1'') ''Cardiology Care - 2025'' ''C-1'' BindOk
       = Inr ([contextLinkedV1], contextLinkedV1, True)
   \<and> createAndLink [''P1''] [contextLinkedV1] ''P1'' (Some ''V1'') ''Cardiology Care - 2025''
       ''C-2'' BindOk = Inr ([contextLinkedV1], contextLinkedV1, False)
   \<and> lookupContext [] ''P1'' (Some ''V1'') = None
   \<and> countContexts [contextLinkedV1] ''P1'' (Some ''V1'') = 1
   \<and> cc_contextId contextLinkedV1 = ''C-1''"
proof -
  have first: "createAndLink [''P1''] [] ''P1'' (Some ''V1'') ''Cardiology Care - 2025'' ''C-1''
      BindOk = Inr ([contextLinkedV1], contextLinkedV1, True)"
    by (simp add: createAndLink_def createLocal_def lookupContext_def applyBindResult_def
        contextLinkedV1_def Let_def)
  have second: "createAndLink [''P1''] [contextLinkedV1] ''P1'' (Some ''V1'')
      ''Cardiology Care - 2025'' ''C-2'' BindOk = Inr ([contextLinkedV1], contextLinkedV1, False)"
    by (simp add: createAndLink_def createLocal_def lookupContext_def applyBindResult_def
        contextLinkedV1_def sameVisit_def Let_def)
  have none: "lookupContext [] ''P1'' (Some ''V1'') = None"
    by (simp add: lookupContext_def)
  have ident: "cc_contextId contextLinkedV1 = ''C-1''"
    by (simp add: contextLinkedV1_def)
  from createAndLink_idempotent [OF first second] none
  have "countContexts [contextLinkedV1] ''P1'' (Some ''V1'') = 1"
    by blast
  with first second none ident show ?thesis
    by (intro conjI)
qed

lemma linkingStatus_bind:
  "j < length contexts \<Longrightarrow>
   cc_linkingStatus (applyBindResult contexts i result ! j)
     = (if j = i then (case result of BindOk \<Rightarrow> linked | BindFailed failure \<Rightarrow> failed)
        else cc_linkingStatus (contexts ! j))"
  by (cases result) (simp_all add: applyBindResult_def nth_list_update)

lemma createAndLink_linked_durable:
  assumes "createAndLink patients contexts p v name newId result = Inr (contexts', c, bind)"
    and "j < length contexts" and "cc_linkingStatus (contexts ! j) = linked"
  shows "j < length contexts' \<and> cc_linkingStatus (contexts' ! j) = linked"
proof (cases "lookupContext contexts p v")
  case None
  with assms show ?thesis
    by (auto simp: createAndLink_def createLocal_def Let_def linkingStatus_bind nth_append
        split: if_splits)
next
  case (Some k)
  with assms show ?thesis
    by (auto simp: createAndLink_def createLocal_def Let_def linkingStatus_bind
        split: if_splits)
qed

lemma runCalls_linked_durable:
  "j < length contexts \<Longrightarrow> cc_linkingStatus (contexts ! j) = linked \<Longrightarrow>
   j < length (runCalls patients contexts cs)
   \<and> cc_linkingStatus (runCalls patients contexts cs ! j) = linked"
proof (induction cs arbitrary: contexts)
  case Nil
  then show ?case by simp
next
  case (Cons call rest)
  show ?case
  proof (cases "createAndLink patients contexts (lc_patientId call) (lc_visitId call)
             (lc_contextName call) (lc_newId call) (lc_result call)")
    case (Inl error)
    with Cons show ?thesis by simp
  next
    case (Inr r)
    obtain contexts' c bind where r: "r = (contexts', c, bind)"
      by (cases r)
    from createAndLink_linked_durable [OF Inr [unfolded r] Cons.prems]
    have "j < length contexts'" "cc_linkingStatus (contexts' ! j) = linked"
      by simp_all
    from Cons.IH [OF this] Inr r show ?thesis
      by simp
  qed
qed

text \<open>
  Claim C2. In a create-and-link call, step (1) changes the status of no existing context
  and a new context starts as pending; in the steps after it a status changes only in the
  context of this call, and only from pending to linked or failed, or from failed to linked
  when the call re-attempts the bind: a linked context stays linked, and no context
  returns to pending. Whatever calls follow, a linked context stays linked.
\<close>

theorem linkingStatus_transitions:
  assumes "createLocal contexts p v name newId = (contexts1, i, created)"
    and "createAndLink patients contexts p v name newId result = Inr (contexts2, c, bind)"
  shows "(\<forall>j<length contexts. cc_linkingStatus (contexts1 ! j) = cc_linkingStatus (contexts ! j))
    \<and> (\<forall>j. length contexts \<le> j \<and> j < length contexts1 \<longrightarrow>
          cc_linkingStatus (contexts1 ! j) = pending \<and> j = i)
    \<and> length contexts2 = length contexts1
    \<and> (\<forall>j<length contexts1.
          allowedTransition (cc_linkingStatus (contexts1 ! j)) (cc_linkingStatus (contexts2 ! j))
            (j = i \<and> bind))
    \<and> (\<forall>j<length contexts1. cc_linkingStatus (contexts1 ! j) = linked \<longrightarrow>
          cc_linkingStatus (contexts2 ! j) = linked)
    \<and> (\<forall>j<length contexts1. cc_linkingStatus (contexts2 ! j) = pending \<longrightarrow>
          cc_linkingStatus (contexts1 ! j) = pending)
    \<and> (\<forall>j<length contexts2. cc_linkingStatus (contexts2 ! j) = linked \<longrightarrow>
          cc_linkingStatus (runCalls patients contexts2 later ! j) = linked)"
proof (cases "lookupContext contexts p v")
  case None
  with assms(1) have local: "contexts1 = contexts @ [\<lparr>cc_contextId = newId, cc_patientId = p,
      cc_visitId = v, cc_contextName = name, cc_contextType = None,
      cc_linkingStatus = pending, cc_linkingError = None\<rparr>]" "i = length contexts" "created"
    by (simp_all add: createLocal_def)
  with assms have final: "contexts2 = applyBindResult contexts1 i result" and bind: "bind"
    by (auto simp: createAndLink_def Let_def split: if_splits)
  show ?thesis
    using bind unfolding final local
    by (auto simp: linkingStatus_bind allowedTransition_def nth_append less_Suc_eq
        runCalls_linked_durable split: bindResult.splits)
next
  case (Some k)
  with assms(1) have local: "contexts1 = contexts" "i = k" "\<not> created"
    by (simp_all add: createLocal_def)
  from Some have k: "k < length contexts"
    by (auto simp: lookupContext_def dest: findIndex_Some)
  from assms local have final:
    "contexts2 = (if cc_linkingStatus (contexts ! k) = failed
       then applyBindResult contexts k result else contexts)"
    "bind = (cc_linkingStatus (contexts ! k) = failed)"
    by (auto simp: createAndLink_def Let_def split: if_splits)
  show ?thesis
    using k unfolding final local
    by (auto simp: linkingStatus_bind allowedTransition_def runCalls_linked_durable
        split: bindResult.splits)
qed

theorem linkingStatus_transitions_witness:
  "createLocal [contextFailedP1] ''P1'' None ''Cardiology Care - 2025'' ''C-2''
     = ([contextFailedP1], 0, False)
   \<and> createAndLink [''P1''] [contextFailedP1] ''P1'' None ''Cardiology Care - 2025'' ''C-2'' BindOk
     = Inr ([contextLinkedP1], contextLinkedP1, True)
   \<and> allowedTransition (cc_linkingStatus ([contextFailedP1] ! 0))
       (cc_linkingStatus ([contextLinkedP1] ! 0)) True
   \<and> cc_linkingStatus ([contextLinkedP1] ! 0) = linked"
proof -
  have local: "createLocal [contextFailedP1] ''P1'' None ''Cardiology Care - 2025'' ''C-2''
     = ([contextFailedP1], 0, False)"
    by (simp add: createLocal_def lookupContext_def sameVisit_def contextFailedP1_def)
  have call: "createAndLink [''P1''] [contextFailedP1] ''P1'' None ''Cardiology Care - 2025''
      ''C-2'' BindOk = Inr ([contextLinkedP1], contextLinkedP1, True)"
    unfolding createAndLink_def local
    by (simp add: applyBindResult_def contextFailedP1_def contextLinkedP1_def Let_def)
  from linkingStatus_transitions [OF local call, where later = "[]"]
  have "\<forall>j<length [contextFailedP1].
          allowedTransition (cc_linkingStatus ([contextFailedP1] ! j))
            (cc_linkingStatus ([contextLinkedP1] ! j)) (j = 0 \<and> True)"
    by (elim conjE)
  then have "allowedTransition (cc_linkingStatus ([contextFailedP1] ! 0))
       (cc_linkingStatus ([contextLinkedP1] ! 0)) True"
    by simp
  moreover have "cc_linkingStatus ([contextLinkedP1] ! 0) = linked"
    by (simp add: contextLinkedP1_def)
  ultimately show ?thesis
    using local call by (intro conjI)
qed

lemma linkingErrorText_nonempty: "linkingErrorText failure \<noteq> []"
  by (cases failure) simp_all

lemma createAndLink_failed_bind:
  assumes "createAndLink patients contexts p v name newId (BindFailed failure)
             = Inr (contexts', c, True)"
  shows "\<exists>i<length contexts'. c = contexts' ! i \<and> cc_patientId c = p \<and> cc_visitId c = v
           \<and> cc_linkingStatus c = failed
           \<and> cc_linkingError c = Some (linkingErrorText failure)"
proof (cases "lookupContext contexts p v")
  case None
  with assms show ?thesis
    by (auto simp: createAndLink_def createLocal_def Let_def applyBindResult_def
        split: if_splits)
next
  case (Some k)
  then have "k < length contexts" "sameVisit p v (contexts ! k)"
    by (auto simp: lookupContext_def dest: findIndex_Some)
  with assms Some show ?thesis
    by (auto simp: createAndLink_def createLocal_def Let_def applyBindResult_def sameVisit_def
        split: if_splits)
qed

lemma createAndLink_keeps_rows:
  assumes "createAndLink patients contexts p v name newId result = Inr (contexts', c, bind)"
  shows "length contexts \<le> length contexts'
    \<and> (\<forall>j<length contexts. cc_contextId (contexts' ! j) = cc_contextId (contexts ! j))"
proof (cases "lookupContext contexts p v")
  case None
  with assms show ?thesis
    by (auto simp: createAndLink_def createLocal_def Let_def contextId_bind nth_append
        split: if_splits)
next
  case (Some k)
  with assms show ?thesis
    by (auto simp: createAndLink_def createLocal_def Let_def contextId_bind split: if_splits)
qed

text \<open>
  Claim C3. When the broker call of a create-and-link invocation fails, by a timeout or by
  a rejection, the local context of the answer is among the contexts with status failed
  and a non-empty error text; no context that was there before is removed; a health record
  that names this context and its patient is attached successfully; and in the record form
  a failed care-context call, whatever it answers, comes after the request that creates the
  record and is followed by the success message.
\<close>

theorem linking_failure_never_blocks:
  assumes "createAndLink patients contexts p v name newId (BindFailed failure)
             = Inr (contexts', c, True)"
  shows "c \<in> set contexts' \<and> cc_patientId c = p
    \<and> cc_linkingStatus c = failed
    \<and> (\<exists>text. cc_linkingError c = Some text \<and> text \<noteq> [])
    \<and> length contexts \<le> length contexts'
    \<and> (\<forall>j<length contexts. cc_contextId (contexts' ! j) = cc_contextId (contexts ! j))
    \<and> (hr_contextId r = cc_contextId c \<and> hr_patientId r = p \<longrightarrow>
          attachHealthRecord contexts' records r = Inr (records @ [r]))
    \<and> (formValid form \<longrightarrow>
          (\<exists>linkEvents.
             fst (handleCreateHealthRecord form fullYear (Inr recordId) linkAnswer notified pg)
               = Call (HealthRecordsCreate ''/api/health-records/undefined''
               (handleCreateHealthRecord_recordData form))
                 # linkEvents @ [Toast SuccessRecordNotificationPending]))"
proof -
  from createAndLink_failed_bind [OF assms] obtain i where i: "i < length contexts'"
      "c = contexts' ! i" "cc_patientId c = p" "cc_linkingStatus c = failed"
      "cc_linkingError c = Some (linkingErrorText failure)"
    by blast
  from i(1,2) have member: "c \<in> set contexts'"
    by simp
  from i(5) have error: "\<exists>text. cc_linkingError c = Some text \<and> text \<noteq> []"
    by (simp add: linkingErrorText_nonempty)
  note kept = createAndLink_keeps_rows [OF assms]
  have attach: "attachHealthRecord contexts' records r = Inr (records @ [r])"
    if "hr_contextId r = cc_contextId c \<and> hr_patientId r = p"
    using that member i(3) by (auto simp: attachHealthRecord_def list_ex_iff)
  have form: "\<exists>linkEvents.
             fst (handleCreateHealthRecord form fullYear (Inr recordId) linkAnswer notified pg)
               = Call (HealthRecordsCreate ''/api/health-records/undefined''
               (handleCreateHealthRecord_recordData form))
                 # linkEvents @ [Toast SuccessRecordNotificationPending]"
    if "formValid form"
    using handleCreateHealthRecord_created [OF that refl] by blast
  from member i(3,4) error kept attach form show ?thesis
    by (intro conjI impI) blast+
qed

theorem linking_failure_never_blocks_witness:
  "createAndLink [''P1''] [] ''P1'' None ''Cardiology Care - 2025'' ''C-1''
       (BindFailed NetworkTimeout) = Inr ([contextFailedP1], contextFailedP1, True)
   \<and> cc_linkingStatus contextFailedP1 = failed
   \<and> (\<exists>text. cc_linkingError contextFailedP1 = Some text \<and> text \<noteq> [])
   \<and> attachHealthRecord [contextFailedP1] [] recordForC1 = Inr [recordForC1]"
proof -
  have call: "createAndLink [''P1''] [] ''P1'' None ''Cardiology Care - 2025'' ''C-1''
       (BindFailed NetworkTimeout) = Inr ([contextFailedP1], contextFailedP1, True)"
    by (simp add: createAndLink_def createLocal_def lookupContext_def applyBindResult_def
        contextFailedP1_def Let_def)
  have names: "hr_contextId recordForC1 = cc_contextId contextFailedP1
      \<and> hr_patientId recordForC1 = ''P1''"
    by (simp add: recordForC1_def contextFailedP1_def)
  note inst = linking_failure_never_blocks [OF call, where r = recordForC1 and records = "[]"
      and form = formFilled and fullYear = "''2025''" and recordId = None
      and linkAnswer = "Inl (Error ''Failed to fetch'')" and notified = "Inr ()"
      and pg = pageSelected]
  from inst have status: "cc_linkingStatus contextFailedP1 = failed"
    by blast
  from inst have error: "\<exists>text. cc_linkingError contextFailedP1 = Some text \<and> text \<noteq> []"
    by blast
  from inst names have attach: "attachHealthRecord [contextFailedP1] [] recordForC1
      = Inr ([] @ [recordForC1])"
    by blast
  from call status error attach show ?thesis
    by simp
qed

section \<open>Properties of the correlator\<close>

lemma lookupRequest_update:
  "lookupRequest requests requestId = Some i \<Longrightarrow>
   lookupRequest (requests[i := (requests ! i)\<lparr>dr_status := s, dr_records := rs\<rparr>]) requestId
     = Some i"
proof -
  assume found: "lookupRequest requests requestId = Some i"
  then have i: "i < length requests"
    by (auto simp: lookupRequest_def dest: findIndex_Some)
  have same: "(dr_requestId ((requests ! i)\<lparr>dr_status := s, dr_records := rs\<rparr>) = requestId)
      = map (\<lambda>r. dr_requestId r = requestId) requests ! i"
    using i by simp
  have "map (\<lambda>r. dr_requestId r = requestId)
          (requests[i := (requests ! i)\<lparr>dr_status := s, dr_records := rs\<rparr>])
        = map (\<lambda>r. dr_requestId r = requestId) requests"
    by (simp only: map_update same list_update_id)
  with found show ?thesis
    using findIndex_map [of "\<lambda>r. dr_requestId r = requestId" requests]
      findIndex_map [of "\<lambda>r. dr_requestId r = requestId"
        "requests[i := (requests ! i)\<lparr>dr_status := s, dr_records := rs\<rparr>]"]
    by (simp add: lookupRequest_def)
qed

text \<open>Scenario D of the specification: a second delivery for a request that the first
  delivery has fulfilled changes nothing.\<close>

lemma second_delivery_noop:
  assumes "lookupRequest requests (ds_requestId response) = Some i"
    and "dr_status (requests ! i) = awaiting_response"
    and "ds_requestId again = ds_requestId response"
  shows "dv_requests (onResponse (dv_requests (onResponse requests response)) again)
           = dv_requests (onResponse requests response)"
proof -
  from assms(1) have i: "i < length requests"
    by (auto simp: lookupRequest_def dest: findIndex_Some)
  have first: "dv_requests (onResponse requests response)
      = requests[i := (requests ! i)\<lparr>dr_status := fulfilled,
          dr_records := ds_records response\<rparr>]"
    using assms(1,2) by (simp add: onResponse_def)
  have look: "lookupRequest (dv_requests (onResponse requests response)) (ds_requestId again)
      = Some i"
    unfolding first assms(3) by (rule lookupRequest_update [OF assms(1)])
  show ?thesis
    using look i by (simp add: onResponse_def [of _ again] first)
qed

text \<open>
  Claim C4. A response whose request id is unknown, or whose request is not awaiting a
  response (it is fulfilled already, or resolved in another way), leaves every data request
  as it was; the delivering party is given an acknowledgement, not an error, and the
  discard is logged.
\<close>

theorem stale_response_discarded:
  assumes "lookupRequest requests (ds_requestId response) = None
     \<or> (\<exists>i. lookupRequest requests (ds_requestId response) = Some i
            \<and> dr_status (requests ! i) \<noteq> awaiting_response)"
  shows "dv_requests (onResponse requests response) = requests
    \<and> dv_reply (onResponse requests response) = Acknowledged
    \<and> dv_log (onResponse requests response) \<noteq> []"
  using assms by (auto simp: onResponse_def)

theorem stale_response_discarded_witness:
  "lookupRequest [requestAwaiting, requestFulfilled] ''Q9'' = None
   \<and> lookupRequest [requestAwaiting, requestFulfilled] ''Q2'' = Some 1
   \<and> dr_status ([requestAwaiting, requestFulfilled] ! 1) \<noteq> awaiting_response
   \<and> dv_requests (onResponse [requestAwaiting, requestFulfilled]
        \<lparr>ds_requestId = ''Q9'', ds_records = [''rec-9'']\<rparr>) = [requestAwaiting, requestFulfilled]
   \<and> dv_requests (onResponse [requestAwaiting, requestFulfilled]
        \<lparr>ds_requestId = ''Q2'', ds_records = [''rec-2'']\<rparr>) = [requestAwaiting, requestFulfilled]
   \<and> dv_reply (onResponse [requestAwaiting, requestFulfilled]
        \<lparr>ds_requestId = ''Q2'', ds_records = [''rec-2'']\<rparr>) = Acknowledged"
proof -
  have unknown: "lookupRequest [requestAwaiting, requestFulfilled] ''Q9'' = None"
    by (simp add: lookupRequest_def requestAwaiting_def requestFulfilled_def)
  have known: "lookupRequest [requestAwaiting, requestFulfilled] ''Q2'' = Some 1"
    by (simp add: lookupRequest_def requestAwaiting_def requestFulfilled_def)
  have resolved: "dr_status ([requestAwaiting, requestFulfilled] ! 1) \<noteq> awaiting_response"
    by (simp add: requestFulfilled_def)
  have h9: "lookupRequest [requestAwaiting, requestFulfilled]
        (ds_requestId \<lparr>ds_requestId = ''Q9'', ds_records = [''rec-9'']\<rparr>) = None
     \<or> (\<exists>i. lookupRequest [requestAwaiting, requestFulfilled]
              (ds_requestId \<lparr>ds_requestId = ''Q9'', ds_records = [''rec-9'']\<rparr>) = Some i
            \<and> dr_status ([requestAwaiting, requestFulfilled] ! i) \<noteq> awaiting_response)"
    using unknown by simp
  have h2: "lookupRequest [requestAwaiting, requestFulfilled]
        (ds_requestId \<lparr>ds_requestId = ''Q2'', ds_records = [''rec-2'']\<rparr>) = None
     \<or> (\<exists>i. lookupRequest [requestAwaiting, requestFulfilled]
              (ds_requestId \<lparr>ds_requestId = ''Q2'', ds_records = [''rec-2'']\<rparr>) = Some i
            \<and> dr_status ([requestAwaiting, requestFulfilled] ! i) \<noteq> awaiting_response)"
    using known resolved by simp
  from unknown known resolved stale_response_discarded [OF h9] stale_response_discarded [OF h2]
  show ?thesis
    by (intro conjI) blast+
qed

end
